theory Spec2Isabelle
  imports Main
begin

section \<open>JavaScript values held by the component\<close>

text \<open>
  The component of \<^verbatim>\<open>EventManagement.jsx\<close> keeps six pieces of React state and talks to
  a REST backend through axios. The embedding below follows the source function by
  function.

  A JavaScript string is a sequence of UTF-16 code units; it is modelled as a list of
  their numbers, so that \<^verbatim>\<open>trim\<close> can recognise every white space character of the
  language and the pictographs of the status messages have a place. \<open>ascii\<close> turns
  an ASCII literal into such a string.
\<close>

type_synonym jsstring = "nat list"

definition ascii :: "string \<Rightarrow> jsstring" where
  "ascii cs = map of_char cs"

text \<open>
  The value of a field of an event record is a scalar: what a form input delivers
  (always a string) or what a JSON record of the backend carries in a field (a string,
  a number, a boolean or null); \<open>Undefined\<close> is what reading an absent property gives.
  Numbers are the integers of magnitude below \<open>10^21\<close>, which JavaScript prints in plain
  decimal digits (larger ones and fractions, which it prints otherwise, are not
  modelled); no statement below depends on the digits of a number. A response body is
  any JSON value.
\<close>

datatype prim = Undefined | Null | Bool bool | Num int | Str jsstring

datatype jsval = Prim prim | Arr "jsval list" | Obj "(jsstring \<times> jsval) list"

text \<open>
  An event record is an object with scalar fields. The list holds its own properties in
  the order in which \<^verbatim>\<open>for (let key in event)\<close> and \<^verbatim>\<open>Object.keys\<close> enumerate them,
  which for names that are not array indices is the order in which they were created;
  a property name occurs once.
\<close>

type_synonym event_obj = "(jsstring \<times> prim) list"

definition own_keys :: "event_obj \<Rightarrow> jsstring list" where
  "own_keys ev = map fst ev"

definition get_prop :: "event_obj \<Rightarrow> jsstring \<Rightarrow> prim" where
  "get_prop ev key = (case map_of ev key of None \<Rightarrow> Undefined | Some v \<Rightarrow> v)"

text \<open>\<^verbatim>\<open>{ ...event, [name]: value }\<close>: an existing property keeps its place, a new one goes last.\<close>

fun set_prop :: "jsstring \<Rightarrow> prim \<Rightarrow> event_obj \<Rightarrow> event_obj" where
  "set_prop key v [] = [(key, v)]"
| "set_prop key v ((k, w) # rest) =
     (if k = key then (k, v) # rest else (k, w) # set_prop key v rest)"

subsection \<open>Truthiness, conversion to string, trimming\<close>

fun falsy :: "prim \<Rightarrow> bool" where
  "falsy Undefined = True"
| "falsy Null = True"
| "falsy (Bool b) = (\<not> b)"
| "falsy (Num n) = (n = 0)"
| "falsy (Str s) = (s = [])"

fun dec_digits :: "nat \<Rightarrow> jsstring" where
  "dec_digits n = (if n < 10 then [48 + n] else dec_digits (n div 10) @ [48 + n mod 10])"

declare dec_digits.simps [simp del]

text \<open>
  The string a scalar turns into inside a template literal; \<^verbatim>\<open>v.toString()\<close> gives the
  same string for every scalar that is neither null nor undefined.
\<close>

fun to_string :: "prim \<Rightarrow> jsstring" where
  "to_string Undefined = ascii ''undefined''"
| "to_string Null = ascii ''null''"
| "to_string (Bool b) = (if b then ascii ''true'' else ascii ''false'')"
| "to_string (Num n) = (if n < 0 then 45 # dec_digits (nat (- n)) else dec_digits (nat n))"
| "to_string (Str s) = s"

text \<open>
  The white space and line terminator code units that \<^verbatim>\<open>String.prototype.trim\<close>
  removes from both ends.
\<close>

definition is_space :: "nat \<Rightarrow> bool" where
  "is_space c =
     (c = 9 \<or> c = 10 \<or> c = 11 \<or> c = 12 \<or> c = 13 \<or> c = 32 \<or> c = 160 \<or> c = 5760 \<or>
      (8192 \<le> c \<and> c \<le> 8202) \<or> c = 8232 \<or> c = 8233 \<or> c = 8239 \<or> c = 8287 \<or>
      c = 12288 \<or> c = 65279)"

definition trim :: "jsstring \<Rightarrow> jsstring" where
  "trim s = rev (dropWhile is_space (rev (dropWhile is_space s)))"

section \<open>Component state and the backend\<close>

datatype request =
    GetAll
  | PostAdd event_obj
  | PutUpdate event_obj
  | DeleteById jsstring
  | GetById jsstring

text \<open>
  axios rejects the promise on a network failure and on a status outside 2xx; otherwise
  it resolves with the parsed body in \<^verbatim>\<open>response.data\<close>.
\<close>

datatype response = Rejected | Resolved jsval

type_synonym backend = "request \<Rightarrow> response"

text \<open>
  The six \<^verbatim>\<open>useState\<close> cells, under the names of the source, and the trace of the
  requests sent so far, which the source does not keep: it is there to state that a
  handler sends nothing.
\<close>

record state =
  events :: "jsval list"
  event :: event_obj
  idToFetch :: jsstring
  fetchedEvent :: jsval
  message :: jsstring
  editMode :: bool
  requests :: "request list"

definition field_id :: jsstring where "field_id = ascii ''id''"
definition field_name :: jsstring where "field_name = ascii ''name''"
definition field_date :: jsstring where "field_date = ascii ''date''"
definition field_location :: jsstring where "field_location = ascii ''location''"
definition field_organizer :: jsstring where "field_organizer = ascii ''organizer''"

text \<open>The object literal \<^verbatim>\<open>{ id, name, date, location, organizer }\<close> with string values.\<close>

definition form_event ::
  "jsstring \<Rightarrow> jsstring \<Rightarrow> jsstring \<Rightarrow> jsstring \<Rightarrow> jsstring \<Rightarrow> event_obj" where
  "form_event i n d l g =
     [(field_id, Str i), (field_name, Str n), (field_date, Str d),
      (field_location, Str l), (field_organizer, Str g)]"

definition empty_event :: event_obj where
  "empty_event = form_event [] [] [] [] []"

definition initial_state :: state where
  "initial_state =
     \<lparr>events = [], event = empty_event, idToFetch = [], fetchedEvent = Prim Null,
      message = [], editMode = False, requests = []\<rparr>"

subsection \<open>Status messages\<close>

definition msg_fetch_failed :: jsstring where
  "msg_fetch_failed = ascii ''Failed to fetch events. Check backend URL or CORS.''"

definition msg_fill_out :: "jsstring \<Rightarrow> jsstring" where
  "msg_fill_out key = ascii ''Please fill out the '' @ key @ ascii '' field.''"

definition msg_added :: jsstring where
  "msg_added = 0x2705 # ascii '' Event added successfully.''"

definition msg_add_error :: jsstring where
  "msg_add_error = 0x274C # ascii '' Error adding event.''"

definition msg_updated :: jsstring where
  "msg_updated = 0x2705 # ascii '' Event updated successfully.''"

definition msg_update_error :: jsstring where
  "msg_update_error = 0x274C # ascii '' Error updating event.''"

definition msg_deleted :: jsstring where
  "msg_deleted = [0xD83D, 0xDDD1, 0xFE0F] @ ascii '' Event deleted successfully.''"

definition msg_delete_error :: jsstring where
  "msg_delete_error = 0x274C # ascii '' Error deleting event.''"

definition msg_enter_id :: jsstring where
  "msg_enter_id = [0x26A0, 0xFE0F] @ ascii '' Enter an event ID to fetch.''"

definition msg_not_found :: jsstring where
  "msg_not_found = 0x274C # ascii '' Event not found.''"

definition msg_editing :: "prim \<Rightarrow> jsstring" where
  "msg_editing i = [0x270F, 0xFE0F] @ ascii '' Editing event with ID '' @ to_string i"

section \<open>API functions\<close>

text \<open>
  Awaiting a request: the request joins the trace and the backend's answer comes back.
  A handler is modelled from its call to the moment its last promise has settled, with
  no other handler running in between.
\<close>

definition await :: "backend \<Rightarrow> request \<Rightarrow> state \<Rightarrow> response \<times> state" where
  "await api r s = (api r, s\<lparr>requests := requests s @ [r]\<rparr>)"

text \<open>\<^verbatim>\<open>data.data\<close> for a truthy \<open>data\<close>: a property of an object, undefined on anything else.\<close>

fun data_member :: "jsval \<Rightarrow> jsval" where
  "data_member (Obj kvs) =
     (case map_of kvs (ascii ''data'') of None \<Rightarrow> Prim Undefined | Some v \<Rightarrow> v)"
| "data_member v = Prim Undefined"

fun truthy :: "jsval \<Rightarrow> bool" where
  "truthy (Prim p) = (\<not> falsy p)"
| "truthy v = True"

fun isArray :: "jsval \<Rightarrow> bool" where
  "isArray (Arr xs) = True"
| "isArray v = False"

fun elements :: "jsval \<Rightarrow> jsval list" where
  "elements (Arr xs) = xs"
| "elements v = []"

definition fetchAllEvents :: "backend \<Rightarrow> state \<Rightarrow> state" where
  "fetchAllEvents api s =
     (case await api GetAll s of
        (Resolved data, s1) \<Rightarrow>
          (if isArray data then s1\<lparr>events := elements data\<rparr>
           else if truthy data \<and> isArray (data_member data)
             then s1\<lparr>events := elements (data_member data)\<rparr>
           else s1\<lparr>events := []\<rparr>)
      | (Rejected, s1) \<Rightarrow> s1\<lparr>message := msg_fetch_failed, events := []\<rparr>)"

definition addEventApi :: "backend \<Rightarrow> event_obj \<Rightarrow> state \<Rightarrow> response \<times> state" where
  "addEventApi api ev = await api (PostAdd ev)"

definition updateEventApi :: "backend \<Rightarrow> event_obj \<Rightarrow> state \<Rightarrow> response \<times> state" where
  "updateEventApi api ev = await api (PutUpdate ev)"

definition deleteEventApi :: "backend \<Rightarrow> prim \<Rightarrow> state \<Rightarrow> response \<times> state" where
  "deleteEventApi api i = await api (DeleteById (to_string i))"

definition fetchEventByIdApi :: "backend \<Rightarrow> jsstring \<Rightarrow> state \<Rightarrow> response \<times> state" where
  "fetchEventByIdApi api i = await api (GetById i)"

section \<open>Handlers\<close>

definition handleChange :: "jsstring \<Rightarrow> jsstring \<Rightarrow> state \<Rightarrow> state" where
  "handleChange name v s = s\<lparr>event := set_prop name (Str v) (event s)\<rparr>"

definition setIdToFetch :: "jsstring \<Rightarrow> state \<Rightarrow> state" where
  "setIdToFetch v s = s\<lparr>idToFetch := v\<rparr>"

text \<open>
  The loop of \<^verbatim>\<open>validateForm\<close> over the keys still to visit: the key at which it returns
  false, if any.
\<close>

fun validateForm_loop :: "event_obj \<Rightarrow> jsstring list \<Rightarrow> jsstring option" where
  "validateForm_loop ev [] = None"
| "validateForm_loop ev (key # rest) =
     (if falsy (get_prop ev key) \<or> trim (to_string (get_prop ev key)) = []
      then Some key
      else validateForm_loop ev rest)"

definition validateForm :: "state \<Rightarrow> bool \<times> state" where
  "validateForm s =
     (case validateForm_loop (event s) (own_keys (event s)) of
        Some key \<Rightarrow> (False, s\<lparr>message := msg_fill_out key\<rparr>)
      | None \<Rightarrow> (True, s))"

definition resetForm :: "state \<Rightarrow> state" where
  "resetForm s = s\<lparr>event := empty_event, editMode := False\<rparr>"

text \<open>
  \<^verbatim>\<open>fetchAllEvents()\<close> is not awaited: its request leaves before \<^verbatim>\<open>resetForm()\<close> runs
  and its answer is handled afterwards. The two write different cells, so the order
  does not show in the state (lemma \<open>resetForm_fetchAllEvents\<close>).
\<close>

definition handleAddEvent :: "backend \<Rightarrow> state \<Rightarrow> state" where
  "handleAddEvent api s =
     (case validateForm s of
        (ok, s1) \<Rightarrow>
          if \<not> ok then s1
          else (case addEventApi api (event s) s1 of
                  (Resolved r, s2) \<Rightarrow>
                    resetForm (fetchAllEvents api (s2\<lparr>message := msg_added\<rparr>))
                | (Rejected, s2) \<Rightarrow> s2\<lparr>message := msg_add_error\<rparr>))"

definition handleUpdateEvent :: "backend \<Rightarrow> state \<Rightarrow> state" where
  "handleUpdateEvent api s =
     (case validateForm s of
        (ok, s1) \<Rightarrow>
          if \<not> ok then s1
          else (case updateEventApi api (event s) s1 of
                  (Resolved r, s2) \<Rightarrow>
                    resetForm (fetchAllEvents api (s2\<lparr>message := msg_updated\<rparr>))
                | (Rejected, s2) \<Rightarrow> s2\<lparr>message := msg_update_error\<rparr>))"

definition handleDeleteEvent :: "backend \<Rightarrow> prim \<Rightarrow> state \<Rightarrow> state" where
  "handleDeleteEvent api i s =
     (case deleteEventApi api i s of
        (Resolved r, s1) \<Rightarrow> fetchAllEvents api (s1\<lparr>message := msg_deleted\<rparr>)
      | (Rejected, s1) \<Rightarrow> s1\<lparr>message := msg_delete_error\<rparr>)"

definition handleFetchById :: "backend \<Rightarrow> state \<Rightarrow> state" where
  "handleFetchById api s =
     (if idToFetch s = [] then s\<lparr>message := msg_enter_id\<rparr>
      else (case fetchEventByIdApi api (idToFetch s) s of
              (Resolved r, s1) \<Rightarrow> s1\<lparr>fetchedEvent := r, message := []\<rparr>
            | (Rejected, s1) \<Rightarrow> s1\<lparr>fetchedEvent := Prim Null, message := msg_not_found\<rparr>))"

definition handleEdit :: "event_obj \<Rightarrow> state \<Rightarrow> state" where
  "handleEdit e s =
     s\<lparr>event := e, editMode := True, message := msg_editing (get_prop e field_id)\<rparr>"

section \<open>The message banner\<close>

definition toLowerCase :: "jsstring \<Rightarrow> jsstring" where
  "toLowerCase s = map (\<lambda>c. if 65 \<le> c \<and> c \<le> 90 then c + 32 else c) s"

fun startsWith :: "jsstring \<Rightarrow> jsstring \<Rightarrow> bool" where
  "startsWith s [] = True"
| "startsWith [] (p # ps) = False"
| "startsWith (c # cs) (p # ps) = (c = p \<and> startsWith cs ps)"

fun includes_str :: "jsstring \<Rightarrow> jsstring \<Rightarrow> bool" where
  "includes_str [] pat = (pat = [])"
| "includes_str (c # cs) pat = (startsWith (c # cs) pat \<or> includes_str cs pat)"

datatype severity = Error | Success

text \<open>
  The class of the banner; there is no banner while the message is the empty string.
  \<^verbatim>\<open>toLowerCase\<close> is modelled on the letters A to Z: no other character has a letter of
  the word \<^verbatim>\<open>error\<close> as its lower case, so the test gives what the source's gives.
\<close>

definition banner :: "jsstring \<Rightarrow> severity option" where
  "banner msg =
     (if msg = [] then None
      else if includes_str (toLowerCase msg) (ascii ''error'') then Some Error
      else Some Success)"

section \<open>Operations and sequences of operations\<close>

text \<open>
  What the rendered page lets happen, as the source wires it to the handlers: a change
  of one of the five inputs or of the id input, the Edit and Delete buttons of a row,
  the buttons Add Event, Update Event, Cancel and Fetch, and the loading of the list
  (on mount). In a sequence every step meets the backend of its moment.
\<close>

datatype action =
    SetField jsstring jsstring
  | SetIdToFetch jsstring
  | SelectForEdit event_obj
  | Reset
  | Create
  | Update
  | Remove prim
  | RefreshAll
  | FetchById

fun perform :: "backend \<Rightarrow> action \<Rightarrow> state \<Rightarrow> state" where
  "perform api (SetField name v) s = handleChange name v s"
| "perform api (SetIdToFetch v) s = setIdToFetch v s"
| "perform api (SelectForEdit e) s = handleEdit e s"
| "perform api Reset s = resetForm s"
| "perform api Create s = handleAddEvent api s"
| "perform api Update s = handleUpdateEvent api s"
| "perform api (Remove i) s = handleDeleteEvent api i s"
| "perform api RefreshAll s = fetchAllEvents api s"
| "perform api FetchById s = handleFetchById api s"

fun run :: "(backend \<times> action) list \<Rightarrow> state \<Rightarrow> state" where
  "run [] s = s"
| "run ((api, a) # rest) s = run rest (perform api a s)"

section \<open>The canonical order of the fields\<close>

text \<open>
  The specification speaks of the canonical order \<^verbatim>\<open>id, name, date, location, organizer\<close>
  of the fields and of the first field that is empty after trimming. These notions are
  written down from its words, to be compared with what \<^verbatim>\<open>validateForm\<close> computes. A
  field is empty when the draft has no value for it (the property is absent or null:
  its input shows nothing) or when it holds a string that trimming leaves empty; the
  text of a number or of a boolean is never empty.
\<close>

definition canonical_fields :: "jsstring list" where
  "canonical_fields = [field_id, field_name, field_date, field_location, field_organizer]"

fun empty_after_trim :: "prim \<Rightarrow> bool" where
  "empty_after_trim Undefined = True"
| "empty_after_trim Null = True"
| "empty_after_trim (Bool b) = False"
| "empty_after_trim (Num n) = False"
| "empty_after_trim (Str s) = (trim s = [])"

definition first_empty_canonical :: "event_obj \<Rightarrow> jsstring option" where
  "first_empty_canonical ev = find (\<lambda>f. empty_after_trim (get_prop ev f)) canonical_fields"

section \<open>The state machine of the mode\<close>

text \<open>
  The specification's machine: selecting a record for editing leads to \<open>Edit\<close>, a reset
  and a successful update or create lead to \<open>Create\<close>, nothing else moves the mode. It is
  written down from the specification, over the operations paired with whether they
  succeeded. A create or update succeeds when the draft passes validation and the
  request resolves.
\<close>

datatype mode = ModeCreate | ModeEdit

definition mode_of :: "state \<Rightarrow> mode" where
  "mode_of s = (if editMode s then ModeEdit else ModeCreate)"

fun resolved :: "response \<Rightarrow> bool" where
  "resolved (Resolved r) = True"
| "resolved Rejected = False"

fun succeeded :: "backend \<Rightarrow> action \<Rightarrow> state \<Rightarrow> bool" where
  "succeeded api Create s = (fst (validateForm s) \<and> resolved (api (PostAdd (event s))))"
| "succeeded api Update s = (fst (validateForm s) \<and> resolved (api (PutUpdate (event s))))"
| "succeeded api a s = True"

fun mode_next :: "mode \<Rightarrow> action \<Rightarrow> bool \<Rightarrow> mode" where
  "mode_next m (SelectForEdit e) ok = ModeEdit"
| "mode_next m Reset ok = ModeCreate"
| "mode_next m Create ok = (if ok then ModeCreate else m)"
| "mode_next m Update ok = (if ok then ModeCreate else m)"
| "mode_next m a ok = m"

fun machine :: "mode \<Rightarrow> (action \<times> bool) list \<Rightarrow> mode" where
  "machine m [] = m"
| "machine m ((a, ok) # rest) = machine (mode_next m a ok) rest"

fun outcomes :: "(backend \<times> action) list \<Rightarrow> state \<Rightarrow> (action \<times> bool) list" where
  "outcomes [] s = []"
| "outcomes ((api, a) # rest) s = (a, succeeded api a s) # outcomes rest (perform api a s)"

section \<open>Sample records, backends and states\<close>

text \<open>
  Concrete inputs on which the theorems below are run: the record of the
  specification's scenario, backends that answer every request, reject every request,
  or answer the list request in an envelope or in an unexpected shape, and states
  reached from the initial one through the handlers.
\<close>

definition launch :: event_obj where
  "launch = form_event (ascii ''1'') (ascii ''Launch'') (ascii ''2025-01-01'') (ascii ''HQ'') (ascii ''Alice'')"

definition as_json :: "event_obj \<Rightarrow> jsval" where
  "as_json ev = Obj (map (\<lambda>(k, v). (k, Prim v)) ev)"

definition backend_up :: backend where
  "backend_up r =
     (case r of
        GetAll \<Rightarrow> Resolved (Arr [as_json launch])
      | GetById i \<Rightarrow> Resolved (as_json launch)
      | _ \<Rightarrow> Resolved (Prim (Str (ascii ''ok''))))"

definition backend_down :: backend where
  "backend_down r = Rejected"

definition blank_name_state :: state where
  "blank_name_state =
     handleChange field_name (ascii ''   '') (handleEdit launch initial_state)"

definition swapped_row :: event_obj where
  "swapped_row =
     [(field_name, Str (ascii ''Launch'')), (field_id, Str (ascii ''1'')),
      (field_date, Str (ascii ''2025-01-01'')), (field_location, Str (ascii ''HQ'')),
      (field_organizer, Str (ascii ''Alice''))]"

definition swapped_state :: state where
  "swapped_state =
     handleChange field_id [] (handleChange field_name [] (handleEdit swapped_row initial_state))"

definition zero_id_row :: event_obj where
  "zero_id_row =
     [(field_id, Num 0), (field_name, Str (ascii ''Launch'')),
      (field_date, Str (ascii ''2025-01-01'')), (field_location, Str (ascii ''HQ'')),
      (field_organizer, Str (ascii ''Alice''))]"

definition edit_state :: state where
  "edit_state = handleEdit launch initial_state"

definition backend_enveloped :: backend where
  "backend_enveloped r =
     (case r of
        GetAll \<Rightarrow> Resolved (Obj [(ascii ''data'', Arr [as_json launch])])
      | _ \<Rightarrow> Resolved (Prim (Str (ascii ''ok''))))"

definition backend_odd :: backend where
  "backend_odd r = Resolved (Obj [(ascii ''status'', Prim (Str (ascii ''ok'')))])"

definition lookup_state :: state where
  "lookup_state = setIdToFetch (ascii ''1'') initial_state"

definition found_state :: state where
  "found_state = setIdToFetch [] (handleFetchById backend_up lookup_state)"

definition partial_row :: event_obj where
  "partial_row =
     [(field_id, Str (ascii ''1'')), (field_name, Str (ascii ''Launch'')),
      (field_date, Str (ascii ''2025-01-01'')), (field_location, Str (ascii ''HQ''))]"

definition partial_state :: state where
  "partial_state = handleEdit partial_row initial_state"

definition null_organizer_state :: state where
  "null_organizer_state =
     handleEdit (partial_row @ [(field_organizer, Null)]) initial_state"

definition numeric_row :: event_obj where
  "numeric_row =
     [(field_id, Num 7), (field_name, Str (ascii ''Launch'')),
      (field_date, Str (ascii ''2025-01-01'')), (field_location, Str (ascii ''HQ'')),
      (field_organizer, Str (ascii ''Alice''))]"

definition numeric_state :: state where
  "numeric_state = handleEdit numeric_row initial_state"

definition two_blank_state :: state where
  "two_blank_state =
     handleChange field_location (ascii ''  '') (handleChange field_name [] numeric_state)"

definition edit_steps :: "(backend \<times> action) list" where
  "edit_steps =
     [(backend_up, RefreshAll),
      (backend_up, SetField field_id (ascii ''1'')),
      (backend_up, Create),
      (backend_up, SetField field_name (ascii ''Launch'')),
      (backend_up, SetField field_date (ascii ''2025-01-01'')),
      (backend_up, SetField field_location (ascii ''HQ'')),
      (backend_up, SetField field_organizer (ascii ''Alice'')),
      (backend_up, Create),
      (backend_up, SelectForEdit launch),
      (backend_up, SetField field_name (ascii ''Launch v2'')),
      (backend_up, Remove (Str (ascii ''1''))),
      (backend_down, Update)]"

definition update_steps :: "(backend \<times> action) list" where
  "update_steps = edit_steps @ [(backend_up, Update)]"

lemmas field_defs =
  field_id_def field_name_def field_date_def field_location_def field_organizer_def

lemmas handler_defs =
  handleAddEvent_def handleUpdateEvent_def handleDeleteEvent_def handleFetchById_def
  handleEdit_def handleChange_def resetForm_def validateForm_def fetchAllEvents_def
  addEventApi_def updateEventApi_def deleteEventApi_def fetchEventByIdApi_def await_def
  setIdToFetch_def

lemmas sample_defs =
  initial_state_def empty_event_def form_event_def launch_def as_json_def
  backend_up_def backend_down_def blank_name_state_def field_defs ascii_def
  own_keys_def get_prop_def trim_def is_space_def

lemmas sample2_defs =
  swapped_row_def swapped_state_def zero_id_row_def edit_state_def canonical_fields_def
  first_empty_canonical_def msg_fill_out_def

lemmas sample4_defs =
  partial_row_def partial_state_def null_organizer_state_def numeric_row_def
  numeric_state_def two_blank_state_def edit_steps_def update_steps_def mode_of_def

lemmas sample3_defs =
  backend_enveloped_def backend_odd_def lookup_state_def found_state_def

section \<open>Validation gates the mutating requests\<close>

lemma validateForm_loop_None:
  "validateForm_loop ev ks = None \<longleftrightarrow>
     (\<forall>k \<in> set ks. \<not> falsy (get_prop ev k) \<and> trim (to_string (get_prop ev k)) \<noteq> [])"
  by (induction ks) auto

lemma validateForm_succeeds_iff:
  "fst (validateForm s) \<longleftrightarrow>
     (\<forall>k \<in> set (own_keys (event s)).
        \<not> falsy (get_prop (event s) k) \<and> trim (to_string (get_prop (event s) k)) \<noteq> [])"
  using validateForm_loop_None [of "event s" "own_keys (event s)"]
  by (auto simp: validateForm_def split: option.splits)







section \<open>The order in which validation visits the fields\<close>

lemma validateForm_loop_find:
  "validateForm_loop ev ks =
     find (\<lambda>k. falsy (get_prop ev k) \<or> trim (to_string (get_prop ev k)) = []) ks"
  by (induction ks) auto

lemma trim_Nil: "trim [] = []"
  by (simp add: trim_def)

lemma dropWhile_none: "\<forall>c \<in> set xs. \<not> P c \<Longrightarrow> dropWhile P xs = xs"
  by (cases xs) auto

lemma trim_no_space: "\<forall>c \<in> set xs. \<not> is_space c \<Longrightarrow> trim xs = xs"
  by (simp add: trim_def dropWhile_none)

lemma dec_digits_range: "c \<in> set (dec_digits n) \<Longrightarrow> 48 \<le> c \<and> c \<le> 57"
proof (induction n rule: dec_digits.induct)
  case (1 n)
  show ?case
  proof (cases "n < 10")
    case True
    with "1.prems" show ?thesis
      by (simp add: dec_digits.simps [of n])
  next
    case False
    with "1.prems" have "c \<in> set (dec_digits (n div 10)) \<or> c = 48 + n mod 10"
      by (auto simp: dec_digits.simps [of n])
    then show ?thesis
    proof
      assume "c \<in> set (dec_digits (n div 10))"
      with False "1.IH" show ?thesis by blast
    next
      assume "c = 48 + n mod 10"
      then show ?thesis by simp
    qed
  qed
qed

lemma dec_digits_nonempty: "dec_digits n \<noteq> []"
  by (simp add: dec_digits.simps [of n])

lemma digit_not_space: "48 \<le> c \<and> c \<le> 57 \<Longrightarrow> \<not> is_space c"
  by (simp add: is_space_def)

lemma to_string_number_no_space:
  assumes "c \<in> set (to_string (Num n))"
  shows "\<not> is_space c"
proof -
  from assms consider "c = 45" | m where "c \<in> set (dec_digits m)"
    by (auto split: if_splits)
  then show ?thesis
  proof cases
    case 1
    then show ?thesis by (simp add: is_space_def)
  next
    case 2
    then have "48 \<le> c \<and> c \<le> 57" by (rule dec_digits_range)
    then show ?thesis by (rule digit_not_space)
  qed
qed

lemma trim_number: "trim (to_string (Num n)) \<noteq> []"
proof -
  have "\<forall>c \<in> set (to_string (Num n)). \<not> is_space c"
    using to_string_number_no_space by blast
  then have "trim (to_string (Num n)) = to_string (Num n)"
    by (rule trim_no_space)
  then show ?thesis
    by (simp add: dec_digits_nonempty)
qed

lemma trim_boolean: "trim (to_string (Bool b)) \<noteq> []"
  by (simp add: trim_def ascii_def is_space_def)

lemma rejected_iff_empty:
  assumes "v \<noteq> Num 0" and "v \<noteq> Bool False"
  shows "(falsy v \<or> trim (to_string v) = []) \<longleftrightarrow> empty_after_trim v"
proof (cases v)
  case (Num n)
  with assms show ?thesis
    using trim_number [of n] by (simp del: to_string.simps)
next
  case (Bool b)
  with assms show ?thesis
    using trim_boolean [of b] by (simp del: to_string.simps)
next
  case (Str s)
  then show ?thesis by (auto simp: trim_Nil)
qed simp_all

lemma validateForm_loop_find_empty:
  "\<forall>k \<in> set ks. get_prop ev k \<noteq> Num 0 \<and> get_prop ev k \<noteq> Bool False \<Longrightarrow>
     validateForm_loop ev ks = find (\<lambda>k. empty_after_trim (get_prop ev k)) ks"
proof (induction ks)
  case Nil
  show ?case by simp
next
  case (Cons k ks)
  then have "(falsy (get_prop ev k) \<or> trim (to_string (get_prop ev k)) = []) \<longleftrightarrow>
      empty_after_trim (get_prop ev k)"
    by (simp add: rejected_iff_empty)
  with Cons show ?case by simp
qed

lemma get_prop_form_event:
  "get_prop (form_event i n d l g) field_id = Str i"
  "get_prop (form_event i n d l g) field_name = Str n"
  "get_prop (form_event i n d l g) field_date = Str d"
  "get_prop (form_event i n d l g) field_location = Str l"
  "get_prop (form_event i n d l g) field_organizer = Str g"
  by (simp_all add: get_prop_def form_event_def field_defs ascii_def)

lemma own_keys_form_event:
  "own_keys (form_event i n d l g) = canonical_fields"
  by (simp add: own_keys_def form_event_def canonical_fields_def)

lemma form_event_values:
  "\<forall>k \<in> set (own_keys (form_event i n d l g)).
     get_prop (form_event i n d l g) k \<noteq> Num 0 \<and> get_prop (form_event i n d l g) k \<noteq> Bool False"
  by (simp add: own_keys_form_event canonical_fields_def get_prop_form_event)

text \<open>
  Claim C2, as amended. Take a draft none of whose fields holds the number zero or the
  boolean false. \<^verbatim>\<open>validateForm\<close> visits the fields the draft has, in the draft's own
  order: it succeeds exactly when none of them is empty after trimming, and otherwise
  it changes nothing but the message, which names the first of them that is empty.
  When the fields of the draft are the five of the form, in whatever order, it
  succeeds exactly when all five are non-empty after trimming. When they come in the
  order \<^verbatim>\<open>id, name, date, location, organizer\<close> (as in the initial and the reset draft
  and after every field edit of such a draft: lemmas \<open>own_keys_form_event\<close> and
  \<open>handleChange_form_event\<close>), the field named is the first empty one in that order.
\<close>

theorem validateForm_own_key_order:
  assumes "\<forall>k \<in> set (own_keys (event s)).
             get_prop (event s) k \<noteq> Num 0 \<and> get_prop (event s) k \<noteq> Bool False"
  shows "validateForm s =
           (case find (\<lambda>k. empty_after_trim (get_prop (event s) k)) (own_keys (event s)) of
              None \<Rightarrow> (True, s)
            | Some f \<Rightarrow> (False, s\<lparr>message := msg_fill_out f\<rparr>)) \<and>
         (set (own_keys (event s)) = set canonical_fields \<longrightarrow>
            (fst (validateForm s) \<longleftrightarrow>
               \<not> empty_after_trim (get_prop (event s) field_id) \<and>
               \<not> empty_after_trim (get_prop (event s) field_name) \<and>
               \<not> empty_after_trim (get_prop (event s) field_date) \<and>
               \<not> empty_after_trim (get_prop (event s) field_location) \<and>
               \<not> empty_after_trim (get_prop (event s) field_organizer))) \<and>
         (own_keys (event s) = canonical_fields \<longrightarrow>
            validateForm s =
              (case first_empty_canonical (event s) of
                 None \<Rightarrow> (True, s)
               | Some f \<Rightarrow> (False, s\<lparr>message := msg_fill_out f\<rparr>)))"
proof -
  let ?empty = "\<lambda>k. empty_after_trim (get_prop (event s) k)"
  have loop: "validateForm_loop (event s) (own_keys (event s)) = find ?empty (own_keys (event s))"
    using assms by (rule validateForm_loop_find_empty)
  have own: "validateForm s =
      (case find ?empty (own_keys (event s)) of
         None \<Rightarrow> (True, s)
       | Some f \<Rightarrow> (False, s\<lparr>message := msg_fill_out f\<rparr>))"
    by (simp add: validateForm_def loop split: option.splits)
  have "fst (validateForm s) \<longleftrightarrow> find ?empty (own_keys (event s)) = None"
    by (simp add: own split: option.splits)
  then have ok: "fst (validateForm s) \<longleftrightarrow> (\<forall>k \<in> set (own_keys (event s)). \<not> ?empty k)"
    by (auto simp: find_None_iff)
  have five: "fst (validateForm s) \<longleftrightarrow>
      \<not> ?empty field_id \<and> \<not> ?empty field_name \<and> \<not> ?empty field_date \<and>
      \<not> ?empty field_location \<and> \<not> ?empty field_organizer"
    if "set (own_keys (event s)) = set canonical_fields"
    using that by (simp add: ok canonical_fields_def)
  have canonical: "validateForm s =
      (case first_empty_canonical (event s) of
         None \<Rightarrow> (True, s)
       | Some f \<Rightarrow> (False, s\<lparr>message := msg_fill_out f\<rparr>))"
    if "own_keys (event s) = canonical_fields"
    using own that by (simp add: first_empty_canonical_def)
  from own five canonical show ?thesis by blast
qed

theorem validateForm_own_key_order_witness:
  "validateForm two_blank_state =
     (False, two_blank_state\<lparr>message := msg_fill_out field_name\<rparr>) \<and>
   first_empty_canonical (event two_blank_state) = Some field_name \<and>
   empty_after_trim (get_prop (event two_blank_state) field_location) \<and>
   validateForm numeric_state = (True, numeric_state) \<and>
   validateForm swapped_state =
     (False, swapped_state\<lparr>message := msg_fill_out field_name\<rparr>) \<and>
   validateForm (handleEdit swapped_row initial_state) =
     (True, handleEdit swapped_row initial_state)"
  using validateForm_own_key_order [of two_blank_state]
    validateForm_own_key_order [of numeric_state]
    validateForm_own_key_order [of swapped_state]
    validateForm_own_key_order [of "handleEdit swapped_row initial_state"]
  by (simp add: handler_defs sample_defs sample2_defs sample4_defs)

text \<open>
  Claim C2, as stated, fails on a draft whose keys come in another order. The loop
  visits the keys of the draft in the draft's own order (lemma \<open>validateForm_loop_find\<close>).
  \<^verbatim>\<open>handleEdit\<close> makes a row of the list the draft as it is; here the backend's
  record lists \<^verbatim>\<open>name\<close> before \<^verbatim>\<open>id\<close>, the user empties both fields, and validation
  names \<^verbatim>\<open>name\<close> where the canonical order has \<^verbatim>\<open>id\<close> first.
\<close>

theorem validateForm_key_order_counterexample:
  "\<not> fst (validateForm swapped_state) \<and>
   message (snd (validateForm swapped_state)) = msg_fill_out field_name \<and>
   first_empty_canonical (event swapped_state) = Some field_id \<and>
   msg_fill_out field_name \<noteq> msg_fill_out field_id"
  by (simp add: handler_defs sample_defs sample2_defs)

text \<open>
  The two conditions of the amended claim are needed. A draft that lacks one of the
  five fields passes validation although that field is empty; and a field holding the
  number zero is rejected by the test \<^verbatim>\<open>!event[key]\<close> although its text is not empty.
\<close>

lemma validateForm_missing_field:
  "fst (validateForm partial_state) \<and>
   first_empty_canonical (event partial_state) = Some field_organizer"
  by (simp add: handler_defs sample_defs sample2_defs sample4_defs)

lemma validateForm_zero_id:
  "\<not> fst (validateForm (handleEdit zero_id_row initial_state)) \<and>
   first_empty_canonical zero_id_row = None"
  by (simp add: handler_defs sample_defs sample2_defs dec_digits.simps)

lemma handleChange_form_event:
  assumes "event s = form_event i n d l g" and "f \<in> set canonical_fields"
  shows "\<exists>i' n' d' l' g'. event (handleChange f v s) = form_event i' n' d' l' g'"
proof -
  from assms(2) consider "f = field_id" | "f = field_name" | "f = field_date"
    | "f = field_location" | "f = field_organizer"
    by (auto simp: canonical_fields_def)
  then show ?thesis
  proof cases
    case 1
    have "event (handleChange f v s) = form_event v n d l g"
      using assms(1) 1 by (simp add: handleChange_def form_event_def field_defs ascii_def)
    then show ?thesis by blast
  next
    case 2
    have "event (handleChange f v s) = form_event i v d l g"
      using assms(1) 2 by (simp add: handleChange_def form_event_def field_defs ascii_def)
    then show ?thesis by blast
  next
    case 3
    have "event (handleChange f v s) = form_event i n v l g"
      using assms(1) 3 by (simp add: handleChange_def form_event_def field_defs ascii_def)
    then show ?thesis by blast
  next
    case 4
    have "event (handleChange f v s) = form_event i n d v g"
      using assms(1) 4 by (simp add: handleChange_def form_event_def field_defs ascii_def)
    then show ?thesis by blast
  next
    case 5
    have "event (handleChange f v s) = form_event i n d l v"
      using assms(1) 5 by (simp add: handleChange_def form_event_def field_defs ascii_def)
    then show ?thesis by blast
  qed
qed

section \<open>Refreshing the list\<close>

lemma resetForm_fetchAllEvents:
  "resetForm (fetchAllEvents api s) = fetchAllEvents api (resetForm s)"
  by (simp add: resetForm_def fetchAllEvents_def await_def split: response.splits)

lemma event_fetchAllEvents:
  "event (fetchAllEvents api s) = event s"
  by (simp add: fetchAllEvents_def await_def split: response.splits)

lemma editMode_fetchAllEvents:
  "editMode (fetchAllEvents api s) = editMode s"
  by (simp add: fetchAllEvents_def await_def split: response.splits)

lemma data_member_Arr:
  "isArray (data_member data) \<longleftrightarrow>
     (\<exists>kvs xs. data = Obj kvs \<and> map_of kvs (ascii ''data'') = Some (Arr xs))"
proof (cases data)
  case (Obj kvs)
  show ?thesis
  proof (cases "map_of kvs (ascii ''data'')")
    case None
    with Obj show ?thesis by simp
  next
    case (Some v)
    with Obj show ?thesis by (cases v) simp_all
  qed
qed simp_all

text \<open>
  Claim C3. What \<^verbatim>\<open>fetchAllEvents\<close> does with each answer to \<^verbatim>\<open>GET /all\<close>: a bare
  array becomes \<open>events\<close>; an object whose \<^verbatim>\<open>data\<close> property is an array gives that inner
  array; any other body that arrives gives the empty list and leaves the message as it
  was; a rejected request gives the empty list and the fetch-failure message.
\<close>

theorem fetchAllEvents_shapes:
  "(api GetAll = Resolved (Arr xs) \<longrightarrow>
      fetchAllEvents api s = s\<lparr>requests := requests s @ [GetAll], events := xs\<rparr>) \<and>
   (api GetAll = Resolved (Obj kvs) \<and> map_of kvs (ascii ''data'') = Some (Arr xs) \<longrightarrow>
      fetchAllEvents api s = s\<lparr>requests := requests s @ [GetAll], events := xs\<rparr>) \<and>
   (api GetAll = Resolved data \<and> (\<forall>ys. data \<noteq> Arr ys) \<and>
    (\<forall>fs ys. data = Obj fs \<longrightarrow> map_of fs (ascii ''data'') \<noteq> Some (Arr ys)) \<longrightarrow>
      fetchAllEvents api s = s\<lparr>requests := requests s @ [GetAll], events := []\<rparr>) \<and>
   (api GetAll = Rejected \<longrightarrow>
      fetchAllEvents api s =
        s\<lparr>requests := requests s @ [GetAll], message := msg_fetch_failed, events := []\<rparr>)"
proof (intro conjI impI)
  assume "api GetAll = Resolved (Arr xs)"
  then show "fetchAllEvents api s = s\<lparr>requests := requests s @ [GetAll], events := xs\<rparr>"
    by (simp add: fetchAllEvents_def await_def)
next
  assume "api GetAll = Resolved (Obj kvs) \<and> map_of kvs (ascii ''data'') = Some (Arr xs)"
  then show "fetchAllEvents api s = s\<lparr>requests := requests s @ [GetAll], events := xs\<rparr>"
    by (simp add: fetchAllEvents_def await_def)
next
  assume other: "api GetAll = Resolved data \<and> (\<forall>ys. data \<noteq> Arr ys) \<and>
    (\<forall>fs ys. data = Obj fs \<longrightarrow> map_of fs (ascii ''data'') \<noteq> Some (Arr ys))"
  then have "\<not> isArray data"
    by (cases data) simp_all
  moreover from other have "\<not> isArray (data_member data)"
    by (simp add: data_member_Arr)
  ultimately show "fetchAllEvents api s = s\<lparr>requests := requests s @ [GetAll], events := []\<rparr>"
    using other by (simp add: fetchAllEvents_def await_def)
next
  assume "api GetAll = Rejected"
  then show "fetchAllEvents api s =
      s\<lparr>requests := requests s @ [GetAll], message := msg_fetch_failed, events := []\<rparr>"
    by (simp add: fetchAllEvents_def await_def)
qed

theorem fetchAllEvents_shapes_witness:
  "fetchAllEvents backend_up edit_state =
     edit_state\<lparr>requests := [GetAll], events := [as_json launch]\<rparr> \<and>
   fetchAllEvents backend_enveloped edit_state =
     edit_state\<lparr>requests := [GetAll], events := [as_json launch]\<rparr> \<and>
   fetchAllEvents backend_odd edit_state = edit_state\<lparr>requests := [GetAll], events := []\<rparr> \<and>
   fetchAllEvents backend_down edit_state =
     edit_state\<lparr>requests := [GetAll], message := msg_fetch_failed, events := []\<rparr>"
  using fetchAllEvents_shapes [where api = backend_up and xs = "[as_json launch]"
      and s = edit_state]
    fetchAllEvents_shapes [where api = backend_enveloped and s = edit_state
      and kvs = "[(ascii ''data'', Arr [as_json launch])]" and xs = "[as_json launch]"]
    fetchAllEvents_shapes [where api = backend_odd and s = edit_state
      and data = "Obj [(ascii ''status'', Prim (Str (ascii ''ok'')))]"]
    fetchAllEvents_shapes [where api = backend_down and s = edit_state]
  by (simp add: handler_defs sample_defs sample2_defs sample3_defs)

section \<open>Failed mutations\<close>

lemma validateForm_valid:
  "fst (validateForm s) \<Longrightarrow> validateForm s = (True, s)"
  by (simp add: validateForm_def split: option.splits)

text \<open>
  Claim C4. With a draft that passes validation, a rejected \<^verbatim>\<open>POST /add\<close> or
  \<^verbatim>\<open>PUT /update\<close> makes the handler set its error message and nothing else: the
  list, the draft, the mode, the looked-up record and the id field are those of the
  state it was called in; the trace has the one request that failed.
\<close>

theorem failed_mutation_keeps_state:
  assumes "fst (validateForm s)"
  shows "(api (PostAdd (event s)) = Rejected \<longrightarrow>
            handleAddEvent api s =
              s\<lparr>requests := requests s @ [PostAdd (event s)], message := msg_add_error\<rparr>) \<and>
         (api (PutUpdate (event s)) = Rejected \<longrightarrow>
            handleUpdateEvent api s =
              s\<lparr>requests := requests s @ [PutUpdate (event s)], message := msg_update_error\<rparr>)"
  using validateForm_valid [OF assms]
  by (simp add: handleAddEvent_def handleUpdateEvent_def addEventApi_def updateEventApi_def
      await_def)

theorem failed_mutation_keeps_state_witness:
  "fst (validateForm edit_state) \<and>
   handleAddEvent backend_down edit_state =
     edit_state\<lparr>requests := [PostAdd launch], message := msg_add_error\<rparr> \<and>
   handleUpdateEvent backend_down edit_state =
     edit_state\<lparr>requests := [PutUpdate launch], message := msg_update_error\<rparr>"
  using failed_mutation_keeps_state [of edit_state backend_down]
  by (simp add: handler_defs sample_defs sample2_defs)

section \<open>Looking up one event\<close>

text \<open>
  Claim C5. \<^verbatim>\<open>handleFetchById\<close> with an empty id sends nothing and sets the warning;
  with a non-empty id it stores the body of a resolved answer in \<open>fetchedEvent\<close> and
  empties the message, and on a rejected answer it stores null and sets the not-found
  message.
\<close>

theorem handleFetchById_cases:
  "(idToFetch s = [] \<longrightarrow> handleFetchById api s = s\<lparr>message := msg_enter_id\<rparr>) \<and>
   (idToFetch s \<noteq> [] \<and> api (GetById (idToFetch s)) = Resolved r \<longrightarrow>
      handleFetchById api s =
        s\<lparr>requests := requests s @ [GetById (idToFetch s)], fetchedEvent := r, message := []\<rparr>) \<and>
   (idToFetch s \<noteq> [] \<and> api (GetById (idToFetch s)) = Rejected \<longrightarrow>
      handleFetchById api s =
        s\<lparr>requests := requests s @ [GetById (idToFetch s)], fetchedEvent := Prim Null,
          message := msg_not_found\<rparr>)"
  by (simp add: handleFetchById_def fetchEventByIdApi_def await_def)

theorem handleFetchById_cases_witness:
  "handleFetchById backend_up initial_state = initial_state\<lparr>message := msg_enter_id\<rparr> \<and>
   handleFetchById backend_up lookup_state =
     lookup_state\<lparr>requests := [GetById (ascii ''1'')], fetchedEvent := as_json launch,
       message := []\<rparr> \<and>
   handleFetchById backend_down lookup_state =
     lookup_state\<lparr>requests := [GetById (ascii ''1'')], fetchedEvent := Prim Null,
       message := msg_not_found\<rparr>"
  using handleFetchById_cases [where api = backend_up and s = initial_state]
    handleFetchById_cases [where api = backend_up and s = lookup_state
      and r = "as_json launch"]
    handleFetchById_cases [where api = backend_down and s = lookup_state]
  by (simp add: handler_defs sample_defs sample2_defs sample3_defs)

text \<open>
  Claim C10. On the empty-id path \<^verbatim>\<open>handleFetchById\<close> leaves \<open>fetchedEvent\<close> as it was: a
  record fetched before, or the null of a failed lookup, stays.
\<close>

theorem handleFetchById_empty_id_keeps_lookup:
  "idToFetch s = [] \<Longrightarrow> fetchedEvent (handleFetchById api s) = fetchedEvent s"
  by (simp add: handleFetchById_def)

theorem handleFetchById_empty_id_keeps_lookup_witness:
  "idToFetch found_state = [] \<and>
   fetchedEvent (handleFetchById backend_down found_state) = as_json launch"
  using handleFetchById_empty_id_keeps_lookup [of found_state backend_down]
  by (simp add: handler_defs sample_defs sample2_defs sample3_defs)

section \<open>The mode of the form\<close>

lemma mode_of_perform:
  "mode_of (perform api a s) = mode_next (mode_of s) a (succeeded api a s)"
proof (cases a)
  case Create
  show ?thesis
    by (cases "api (PostAdd (event s))")
      (simp_all add: Create mode_of_def handleAddEvent_def validateForm_def addEventApi_def
        await_def resetForm_def editMode_fetchAllEvents split: option.splits)
next
  case Update
  show ?thesis
    by (cases "api (PutUpdate (event s))")
      (simp_all add: Update mode_of_def handleUpdateEvent_def validateForm_def
        updateEventApi_def await_def resetForm_def editMode_fetchAllEvents
        split: option.splits)
next
  case (Remove i)
  then show ?thesis
    by (simp add: mode_of_def handleDeleteEvent_def deleteEventApi_def await_def
        editMode_fetchAllEvents split: response.splits)
next
  case FetchById
  then show ?thesis
    by (simp add: mode_of_def handleFetchById_def fetchEventByIdApi_def await_def
        split: response.splits)
qed (simp_all add: mode_of_def handleChange_def setIdToFetch_def handleEdit_def
    resetForm_def editMode_fetchAllEvents)

lemma mode_of_run:
  "mode_of (run steps s) = machine (mode_of s) (outcomes steps s)"
proof (induction steps arbitrary: s)
  case Nil
  show ?case by simp
next
  case (Cons step steps)
  obtain api a where step: "step = (api, a)"
    by (cases step)
  show ?case
    by (simp add: step Cons.IH mode_of_perform)
qed

text \<open>
  Claim C6. \<^verbatim>\<open>handleEdit\<close> puts the form in edit mode with the selected record as
  draft; \<^verbatim>\<open>resetForm\<close> puts it in create mode with the draft whose five fields are the
  empty string, from any state; an update and a create whose request resolves end in
  create mode with that draft, whatever the refresh that follows brings. After every
  sequence of operations the mode is the one the specification's machine gives: no
  other operation moves it.
\<close>

theorem mode_transitions:
  "(editMode (handleEdit e s) \<and> event (handleEdit e s) = e) \<and>
   (\<not> editMode (resetForm s) \<and>
    event (resetForm s) =
      [(ascii ''id'', Str []), (ascii ''name'', Str []), (ascii ''date'', Str []),
       (ascii ''location'', Str []), (ascii ''organizer'', Str [])]) \<and>
   (fst (validateForm s) \<and> api (PutUpdate (event s)) = Resolved r \<longrightarrow>
      \<not> editMode (handleUpdateEvent api s) \<and>
      event (handleUpdateEvent api s) =
        [(ascii ''id'', Str []), (ascii ''name'', Str []), (ascii ''date'', Str []),
         (ascii ''location'', Str []), (ascii ''organizer'', Str [])]) \<and>
   (fst (validateForm s) \<and> api (PostAdd (event s)) = Resolved r \<longrightarrow>
      \<not> editMode (handleAddEvent api s) \<and>
      event (handleAddEvent api s) =
        [(ascii ''id'', Str []), (ascii ''name'', Str []), (ascii ''date'', Str []),
         (ascii ''location'', Str []), (ascii ''organizer'', Str [])]) \<and>
   mode_of (run steps s) = machine (mode_of s) (outcomes steps s)"
proof -
  let ?blank = "[(ascii ''id'', Str []), (ascii ''name'', Str []), (ascii ''date'', Str []),
    (ascii ''location'', Str []), (ascii ''organizer'', Str [])]"
  have blank: "empty_event = ?blank"
    by (simp add: empty_event_def form_event_def field_defs)
  have edit: "editMode (handleEdit e s) \<and> event (handleEdit e s) = e"
    by (simp add: handleEdit_def)
  have reset: "\<not> editMode (resetForm s) \<and> event (resetForm s) = ?blank"
    by (simp add: resetForm_def blank)
  have update: "\<not> editMode (handleUpdateEvent api s) \<and> event (handleUpdateEvent api s) = ?blank"
    if "fst (validateForm s) \<and> api (PutUpdate (event s)) = Resolved r"
  proof -
    have "handleUpdateEvent api s =
        resetForm (fetchAllEvents api
          (s\<lparr>requests := requests s @ [PutUpdate (event s)], message := msg_updated\<rparr>))"
      using that validateForm_valid [of s]
      by (simp add: handleUpdateEvent_def updateEventApi_def await_def)
    then show ?thesis
      by (simp add: resetForm_def blank)
  qed
  have add: "\<not> editMode (handleAddEvent api s) \<and> event (handleAddEvent api s) = ?blank"
    if "fst (validateForm s) \<and> api (PostAdd (event s)) = Resolved r"
  proof -
    have "handleAddEvent api s =
        resetForm (fetchAllEvents api
          (s\<lparr>requests := requests s @ [PostAdd (event s)], message := msg_added\<rparr>))"
      using that validateForm_valid [of s]
      by (simp add: handleAddEvent_def addEventApi_def await_def)
    then show ?thesis
      by (simp add: resetForm_def blank)
  qed
  from edit reset update add mode_of_run [of steps s] show ?thesis
    by blast
qed

theorem mode_transitions_witness:
  "editMode edit_state \<and> event edit_state = launch \<and>
   \<not> editMode (resetForm edit_state) \<and>
   event (resetForm edit_state) =
     [(ascii ''id'', Str []), (ascii ''name'', Str []), (ascii ''date'', Str []),
      (ascii ''location'', Str []), (ascii ''organizer'', Str [])] \<and>
   \<not> editMode (handleUpdateEvent backend_up edit_state) \<and>
   event (handleUpdateEvent backend_up edit_state) = event (resetForm edit_state) \<and>
   \<not> editMode (handleAddEvent backend_up edit_state) \<and>
   event (handleAddEvent backend_up edit_state) = event (resetForm edit_state) \<and>
   mode_of (run edit_steps initial_state) = ModeEdit \<and>
   machine ModeCreate (outcomes edit_steps initial_state) = ModeEdit \<and>
   mode_of (run update_steps initial_state) = ModeCreate \<and>
   machine ModeCreate (outcomes update_steps initial_state) = ModeCreate"
proof -
  have per_op: "editMode edit_state \<and> event edit_state = launch \<and>
      \<not> editMode (resetForm edit_state) \<and>
      event (resetForm edit_state) =
        [(ascii ''id'', Str []), (ascii ''name'', Str []), (ascii ''date'', Str []),
         (ascii ''location'', Str []), (ascii ''organizer'', Str [])] \<and>
      \<not> editMode (handleUpdateEvent backend_up edit_state) \<and>
      event (handleUpdateEvent backend_up edit_state) = event (resetForm edit_state) \<and>
      \<not> editMode (handleAddEvent backend_up edit_state) \<and>
      event (handleAddEvent backend_up edit_state) = event (resetForm edit_state)"
    using mode_transitions [where e = launch and s = initial_state]
      mode_transitions [where s = edit_state and api = backend_up
        and r = "Prim (Str (ascii ''ok''))"]
    by (simp add: handler_defs sample_defs sample2_defs)
  have edit_run: "mode_of (run edit_steps initial_state) = ModeEdit"
    by (simp add: handler_defs sample_defs sample2_defs sample4_defs)
  have update_run: "mode_of (run update_steps initial_state) = ModeCreate"
    by (simp add: handler_defs sample_defs sample2_defs sample4_defs)
  from per_op edit_run update_run
    mode_transitions [where steps = edit_steps and s = initial_state]
    mode_transitions [where steps = update_steps and s = initial_state]
  show ?thesis
    by (simp add: mode_of_def initial_state_def)
qed

section \<open>Frame conditions\<close>

lemma fetchedEvent_fetchAllEvents:
  "fetchedEvent (fetchAllEvents api s) = fetchedEvent s"
  by (simp add: fetchAllEvents_def await_def split: response.splits)

lemma fetchedEvent_validateForm:
  "fetchedEvent (snd (validateForm s)) = fetchedEvent s"
  by (simp add: validateForm_def split: option.splits)

text \<open>
  Claim C8. Only \<^verbatim>\<open>handleFetchById\<close> writes \<open>fetchedEvent\<close>: editing a field,
  validating, selecting a row for editing, resetting the form, creating, updating,
  deleting and refreshing the list leave it as it was, for every backend and so on
  every path, the failing ones included.
\<close>

theorem fetchedEvent_frame:
  "fetchedEvent (handleChange name v s) = fetchedEvent s \<and>
   fetchedEvent (snd (validateForm s)) = fetchedEvent s \<and>
   fetchedEvent (handleEdit e s) = fetchedEvent s \<and>
   fetchedEvent (resetForm s) = fetchedEvent s \<and>
   fetchedEvent (handleAddEvent api s) = fetchedEvent s \<and>
   fetchedEvent (handleUpdateEvent api s) = fetchedEvent s \<and>
   fetchedEvent (handleDeleteEvent api i s) = fetchedEvent s \<and>
   fetchedEvent (fetchAllEvents api s) = fetchedEvent s"
proof (intro conjI)
  show "fetchedEvent (handleAddEvent api s) = fetchedEvent s"
    by (simp add: handleAddEvent_def validateForm_def addEventApi_def await_def resetForm_def
        fetchedEvent_fetchAllEvents split: option.splits response.splits)
  show "fetchedEvent (handleUpdateEvent api s) = fetchedEvent s"
    by (simp add: handleUpdateEvent_def validateForm_def updateEventApi_def await_def
        resetForm_def fetchedEvent_fetchAllEvents split: option.splits response.splits)
  show "fetchedEvent (handleDeleteEvent api i s) = fetchedEvent s"
    by (simp add: handleDeleteEvent_def deleteEventApi_def await_def
        fetchedEvent_fetchAllEvents split: response.splits)
qed (simp_all add: handleChange_def handleEdit_def resetForm_def fetchedEvent_validateForm
    fetchedEvent_fetchAllEvents)

theorem fetchedEvent_frame_witness:
  "fetchedEvent found_state = as_json launch \<and>
   fetchedEvent (handleChange field_name (ascii ''Launch v2'') found_state) = as_json launch \<and>
   fetchedEvent (snd (validateForm found_state)) = as_json launch \<and>
   fetchedEvent (handleEdit launch found_state) = as_json launch \<and>
   fetchedEvent (resetForm found_state) = as_json launch \<and>
   fetchedEvent (handleAddEvent backend_down found_state) = as_json launch \<and>
   fetchedEvent (handleUpdateEvent backend_up found_state) = as_json launch \<and>
   fetchedEvent (handleDeleteEvent backend_down (Str (ascii ''1'')) found_state) =
     as_json launch \<and>
   fetchedEvent (fetchAllEvents backend_down found_state) = as_json launch"
proof -
  have found: "fetchedEvent found_state = as_json launch"
    by (simp add: handler_defs sample_defs sample3_defs)
  show ?thesis
    using found
      fetchedEvent_frame [where s = found_state and name = field_name
        and v = "ascii ''Launch v2''" and e = launch and api = backend_down
        and i = "Str (ascii ''1'')"]
      fetchedEvent_frame [where s = found_state and api = backend_up]
    by simp
qed

text \<open>
  Claim C9. \<^verbatim>\<open>handleDeleteEvent\<close> leaves the draft and the mode as they were, whether
  the request resolves or is rejected. Deleting the record that is loaded for editing
  leaves the form in edit mode holding that record.
\<close>

theorem handleDeleteEvent_keeps_form:
  "event (handleDeleteEvent api i s) = event s \<and>
   editMode (handleDeleteEvent api i s) = editMode s \<and>
   editMode (handleDeleteEvent api (get_prop e field_id) (handleEdit e s)) \<and>
   event (handleDeleteEvent api (get_prop e field_id) (handleEdit e s)) = e"
  by (simp add: handleDeleteEvent_def deleteEventApi_def await_def handleEdit_def
      event_fetchAllEvents editMode_fetchAllEvents split: response.splits)

theorem handleDeleteEvent_keeps_form_witness:
  "get_prop launch field_id = Str (ascii ''1'') \<and>
   requests (handleDeleteEvent backend_up (Str (ascii ''1'')) edit_state) =
     [DeleteById (ascii ''1''), GetAll] \<and>
   editMode (handleDeleteEvent backend_up (Str (ascii ''1'')) edit_state) \<and>
   event (handleDeleteEvent backend_up (Str (ascii ''1'')) edit_state) = launch \<and>
   editMode (handleDeleteEvent backend_down (Str (ascii ''1'')) edit_state) \<and>
   event (handleDeleteEvent backend_down (Str (ascii ''1'')) edit_state) = launch"
  using handleDeleteEvent_keeps_form [where api = backend_up and i = "Str (ascii ''1'')"
      and s = edit_state and e = launch]
    handleDeleteEvent_keeps_form [where api = backend_down and i = "Str (ascii ''1'')"
      and s = edit_state and e = launch]
  by (simp add: handler_defs sample_defs sample2_defs)

section \<open>The class of the banner\<close>

lemma banner_of_messages:
  "banner msg_add_error = Some Error"
  "banner msg_update_error = Some Error"
  "banner msg_delete_error = Some Error"
  "banner msg_not_found = Some Success"
  "banner msg_fetch_failed = Some Success"
  "banner msg_added = Some Success"
  "banner msg_updated = Some Success"
  "banner msg_deleted = Some Success"
  "banner msg_enter_id = Some Success"
  by (simp_all add: banner_def toLowerCase_def ascii_def msg_add_error_def
      msg_update_error_def msg_delete_error_def msg_not_found_def msg_fetch_failed_def
      msg_added_def msg_updated_def msg_deleted_def msg_enter_id_def)

lemma rejected_lookup_banner:
  "idToFetch s \<noteq> [] \<Longrightarrow> api (GetById (idToFetch s)) = Rejected \<Longrightarrow>
     banner (message (handleFetchById api s)) = Some Success"
  by (simp add: handleFetchById_def fetchEventByIdApi_def await_def banner_of_messages)

lemma rejected_refresh_banner:
  "api GetAll = Rejected \<Longrightarrow> banner (message (fetchAllEvents api s)) = Some Success"
  by (simp add: fetchAllEvents_def await_def banner_of_messages)

text \<open>
  Claim C7. The claim asks the banner of every failed operation to carry the error
  class. The source derives the class from the word \<^verbatim>\<open>error\<close> in the message, and two
  of its failure messages do not contain it: after a rejected lookup and after a
  rejected refresh the banner carries the success class.
\<close>

theorem failure_banner_success_class:
  "message (handleFetchById backend_down lookup_state) = msg_not_found \<and>
   banner (message (handleFetchById backend_down lookup_state)) = Some Success \<and>
   message (fetchAllEvents backend_down initial_state) = msg_fetch_failed \<and>
   banner (message (fetchAllEvents backend_down initial_state)) = Some Success"
  by (simp add: handler_defs sample_defs sample3_defs banner_of_messages)

end
